theory Spec2Isabelle
  imports Main "HOL-Library.AList"
begin

section \<open>Python values and exceptions\<close>

text \<open>
  The values that travel between the tree and the YAML library: scalars, lists and
  dicts. A Python dict keeps its keys in insertion order, so it is an association list
  whose keys are distinct: \<open>map_of\<close> reads a key and \<open>AList.update\<close> writes one
  (in place when the key is there, at the end when it is new), as \<open>d[k] = v\<close> does.
  Floats are left out of the scalars.
\<close>

datatype scalar = SNull | SBool bool | SInt int | SStr string

datatype ydata = DScalar scalar | DList "ydata list" | DMap "(string \<times> ydata) list"

text \<open>Python truthiness, as the \<open>or\<close> of \<open>yaml.load(...) or {}\<close> reads it.\<close>

fun truthy :: "ydata \<Rightarrow> bool" where
  "truthy (DScalar SNull) = False"
| "truthy (DScalar (SBool b)) = b"
| "truthy (DScalar (SInt i)) = (i \<noteq> 0)"
| "truthy (DScalar (SStr s)) = (s \<noteq> [])"
| "truthy (DList xs) = (xs \<noteq> [])"
| "truthy (DMap kvs) = (kvs \<noteq> [])"

text \<open>
  The exceptions the modelled code raises. The source raises \<open>KeyError\<close> and
  \<open>ValueError\<close> with a message; the constructors carry the parts of the message and
  are named as the specification's error taxonomy names them:
  \<^item> \<open>PathNotFoundError key traversed\<close>: \<open>KeyError("Path not found at segment 'key'
    after traversing: " + "/".join(traversed))\<close> of \<open>navigate_to\<close>;
  \<^item> \<open>NodeNotFoundError name\<close>: \<open>KeyError("Node 'name' not found in the tree.")\<close>;
  \<^item> \<open>CannotDeleteRootError\<close>: \<open>ValueError("Cannot delete root node")\<close>;
  \<^item> \<open>InvalidFormatError\<close>: \<open>ValueError("Invalid YAML format, ...")\<close>;
  \<^item> \<open>RootMismatchError expected found\<close>: \<open>ValueError("Root mismatch! ...")\<close>;
  \<^item> \<open>StopIteration\<close>: \<open>next(iter(...))\<close> on an empty dict;
  \<^item> \<open>AttributeError\<close>: an attribute read on \<open>None\<close> (a builder without a root);
  \<^item> \<open>KeyError k\<close>: a dict read at a missing key;
  \<^item> \<open>FormatValueError\<close>: the \<open>ValueError\<close> of \<open>str.format\<close> for a malformed
    template; \<open>IndexError\<close>: its error for a positional field; its \<open>KeyError\<close> for
    an unknown field name is \<open>KeyError\<close> with that name;
  \<^item> \<open>LibraryError msg\<close>: an exception of a collaborator outside the modelled code
    (the YAML parser, the runner factory).
\<close>

datatype error =
    PathNotFoundError string "string list"
  | NodeNotFoundError string
  | CannotDeleteRootError
  | InvalidFormatError
  | RootMismatchError string string
  | StopIteration
  | AttributeError
  | KeyError string
  | FormatValueError
  | IndexError
  | LibraryError string

text \<open>
  A method that mutates its object either returns or raises; in both cases the object is
  left in some state. \<open>Returned s\<close> is the state after a normal return, \<open>Raised e s\<close>
  the state the object is in when \<open>e\<close> leaves the method.
\<close>

datatype 's outcome = Returned 's | Raised error 's

section \<open>The configuration tree (yaml\_node.py, yaml\_value.py)\<close>

text \<open>
  Modelled from the spec: the classes \<open>YAMLNode\<close> and \<open>YamlValue\<close>
  (infrastructure/adapters/yaml/yaml\_node.py and yaml\_value.py) are not among the source
  files; the builder only calls them. The specification's data model gives a node a
  name, a value that is absent, a scalar or an ordered sequence, and an ordered list of
  children. \<open>Absent\<close> is \<open>None\<close>, \<open>Scalar s\<close> is a \<open>YamlValue\<close> object wrapping
  \<open>s\<close> (an ordinary object, hence truthy, whose \<open>to_dict()\<close> gives \<open>s\<close> back), and
  \<open>Sequence xs\<close> is a Python list. A node is an ordinary object too, so the tests
  \<open>if child:\<close>, \<open>if result_rc:\<close> and \<open>if self.current.parent:\<close> of the builder ask
  whether there is a node.

  The \<open>parent\<close> back-reference is not a field: a node is addressed by the list of
  child indices that leads to it from the root, its parent by that list without its
  last index, and the root by the empty list.
\<close>

datatype yvalue = Absent | Scalar scalar | Sequence "ydata list"

datatype YAMLNode = YAMLNode (name: string) (nvalue: yvalue) (children: "YAMLNode list")

fun node_at :: "YAMLNode \<Rightarrow> nat list \<Rightarrow> YAMLNode option" where
  "node_at n [] = Some n"
| "node_at n (i # p) = (if i < length (children n) then node_at (children n ! i) p else None)"

fun update_at :: "(YAMLNode \<Rightarrow> YAMLNode) \<Rightarrow> nat list \<Rightarrow> YAMLNode \<Rightarrow> YAMLNode" where
  "update_at f [] n = f n"
| "update_at f (i # p) n =
     (if i < length (children n)
      then YAMLNode (name n) (nvalue n) ((children n)[i := update_at f p (children n ! i)])
      else n)"

text \<open>
  Modelled from the spec: \<open>YAMLNode.add_child(name, value)\<close> appends a new childless
  node to the children and returns it; the new child's index is the old number of
  children.
\<close>

definition yaml_node_add_child :: "string \<Rightarrow> yvalue \<Rightarrow> YAMLNode \<Rightarrow> YAMLNode" where
  "yaml_node_add_child nm v n = YAMLNode (name n) (nvalue n) (children n @ [YAMLNode nm v []])"

text \<open>
  Modelled from the spec: \<open>YAMLNode.find_child(key)\<close> matches by child name; it gives
  the first child of that name (here its index) or \<open>None\<close>.
\<close>

fun first_named :: "string \<Rightarrow> YAMLNode list \<Rightarrow> nat option" where
  "first_named key [] = None"
| "first_named key (c # cs) = (if name c = key then Some 0 else map_option Suc (first_named key cs))"

definition find_child :: "YAMLNode \<Rightarrow> string \<Rightarrow> nat option" where
  "find_child n key = first_named key (children n)"

definition set_value :: "yvalue \<Rightarrow> YAMLNode \<Rightarrow> YAMLNode" where
  "set_value v n = YAMLNode (name n) v (children n)"

section \<open>The fluent builder (yaml\_builder.py)\<close>

text \<open>
  \<open>root\<close> is \<open>self.root\<close> (\<open>None\<close> before the first node), \<open>current\<close> is the cursor
  \<open>self.current\<close> as the path of the node it refers to. Without a root the cursor is
  \<open>None\<close> in Python and the empty path here.
\<close>

record FluentYAMLBuilder =
  root :: "YAMLNode option"
  current :: "nat list"

text \<open>\<open>__init__\<close>: an empty name is falsy in Python, so it gives no root either.\<close>

definition FluentYAMLBuilder_init :: "string option \<Rightarrow> FluentYAMLBuilder" where
  "FluentYAMLBuilder_init root_name =
     (case root_name of
        None \<Rightarrow> \<lparr>root = None, current = []\<rparr>
      | Some nm \<Rightarrow>
          if nm \<noteq> [] then \<lparr>root = Some (YAMLNode nm Absent []), current = []\<rparr>
          else \<lparr>root = None, current = []\<rparr>)"

text \<open>
  The cursor of a builder refers to a node of its tree: \<open>add_child\<close>, \<open>up\<close> and
  \<open>navigate_to\<close> keep this, as is proved below. A builder whose cursor is not a path of
  its tree has no Python counterpart; \<open>add_child\<close> and \<open>delete_current\<close> leave such a
  builder as it is.
\<close>

definition cursor_ok :: "FluentYAMLBuilder \<Rightarrow> bool" where
  "cursor_ok b = (case root b of None \<Rightarrow> current b = [] | Some r \<Rightarrow> node_at r (current b) \<noteq> None)"

definition add_child :: "string \<Rightarrow> yvalue \<Rightarrow> bool \<Rightarrow> FluentYAMLBuilder \<Rightarrow> FluentYAMLBuilder" where
  "add_child nm v stay b =
     (case root b of
        None \<Rightarrow> \<lparr>root = Some (YAMLNode nm v []), current = []\<rparr>
      | Some r \<Rightarrow>
          (case node_at r (current b) of
             None \<Rightarrow> b
           | Some cur \<Rightarrow>
               \<lparr>root = Some (update_at (yaml_node_add_child nm v) (current b) r),
                current = (if \<not> stay then current b @ [length (children cur)] else current b)\<rparr>))"

text \<open>
  \<open>navigate_to\<close>: the loop over the path, from \<open>node\<close> with the keys walked so far in
  \<open>traversed\<close>. \<open>Inl (key, traversed)\<close> is the raise at the first key without a child,
  \<open>Inr p\<close> the path of the node reached.
\<close>

fun walk :: "YAMLNode \<Rightarrow> string list \<Rightarrow> string list \<Rightarrow> (string \<times> string list) + nat list" where
  "walk node traversed [] = Inr []"
| "walk node traversed (key # path) =
     (case find_child node key of
        Some i \<Rightarrow>
          (case walk (children node ! i) (traversed @ [key]) path of
             Inl e \<Rightarrow> Inl e
           | Inr p \<Rightarrow> Inr (i # p))
      | None \<Rightarrow> Inl (key, traversed))"

definition navigate_to :: "string list \<Rightarrow> FluentYAMLBuilder \<Rightarrow> FluentYAMLBuilder outcome" where
  "navigate_to path b =
     (case root b of
        None \<Rightarrow> (if path = [] then Returned b else Raised AttributeError b)
      | Some r \<Rightarrow>
          (case walk r [] path of
             Inl (key, traversed) \<Rightarrow> Raised (PathNotFoundError key traversed) b
           | Inr p \<Rightarrow> Returned (b\<lparr>current := p\<rparr>)))"

text \<open>
  \<open>navigate_to_recursively\<close>: the inner function \<open>recursive_search\<close> and its loop over
  the children, which starts at child index \<open>i\<close>. The result is the path of the node
  the Python function returns.
\<close>

fun recursive_search :: "YAMLNode \<Rightarrow> string \<Rightarrow> nat list option"
and search_children :: "YAMLNode list \<Rightarrow> nat \<Rightarrow> string \<Rightarrow> nat list option" where
  "recursive_search (YAMLNode nm v cs) name_rc =
     (if nm = name_rc then Some [] else search_children cs 0 name_rc)"
| "search_children [] i name_rc = None"
| "search_children (child # cs) i name_rc =
     (case recursive_search child name_rc of
        Some p \<Rightarrow> Some (i # p)
      | None \<Rightarrow> search_children cs (Suc i) name_rc)"

definition navigate_to_recursively :: "string \<Rightarrow> FluentYAMLBuilder \<Rightarrow> FluentYAMLBuilder outcome" where
  "navigate_to_recursively nm b =
     (case root b of
        None \<Rightarrow> Raised AttributeError b
      | Some r \<Rightarrow>
          (case recursive_search r nm of
             None \<Rightarrow> Raised (NodeNotFoundError nm) b
           | Some p \<Rightarrow> Returned (b\<lparr>current := p\<rparr>)))"

text \<open>
  \<open>delete_current\<close> calls \<open>parent.remove_child(self.current.name)\<close>. The method
  \<open>YAMLNode.remove_child\<close> is not among the source files and the specification does
  not describe it, so it is a parameter: \<open>remove_child p nm\<close> is the parent \<open>p\<close> after
  the call with the name \<open>nm\<close>. The cursor has a parent when its path is not empty.
\<close>

definition delete_current ::
  "(YAMLNode \<Rightarrow> string \<Rightarrow> YAMLNode) \<Rightarrow> FluentYAMLBuilder \<Rightarrow> FluentYAMLBuilder outcome" where
  "delete_current remove_child b =
     (case root b of
        None \<Rightarrow> Raised AttributeError b
      | Some r \<Rightarrow>
          (case node_at r (current b) of
             None \<Rightarrow> Returned b
           | Some cur \<Rightarrow>
               if current b \<noteq> [] then
                 Returned \<lparr>root = Some (update_at (\<lambda>p. remove_child p (name cur)) (butlast (current b)) r),
                           current = butlast (current b)\<rparr>
               else Raised CannotDeleteRootError b))"

text \<open>
  Modelled from the spec: one implementation of \<open>YAMLNode.remove_child(name)\<close>, which
  drops the children of that name.
\<close>

definition yaml_node_remove_child :: "YAMLNode \<Rightarrow> string \<Rightarrow> YAMLNode" where
  "yaml_node_remove_child p nm = YAMLNode (name p) (nvalue p) (filter (\<lambda>c. name c \<noteq> nm) (children p))"

definition up :: "FluentYAMLBuilder \<Rightarrow> FluentYAMLBuilder outcome" where
  "up b =
     (case root b of
        None \<Rightarrow> Raised AttributeError b
      | Some r \<Rightarrow> Returned (if current b \<noteq> [] then b\<lparr>current := butlast (current b)\<rparr> else b))"

text \<open>
  \<open>to_dict\<close> returns a dict with the single key \<open>node.name\<close>, and the loop over the
  children takes that one item out again (\<open>next(iter(child_dict.items()))\<close>); here
  \<open>to_dict\<close> gives the item itself. \<open>merge_entry\<close> is the body of the loop and
  \<open>to_dict_children\<close> the loop, with the dict \<open>result\<close> built so far.

  Where \<open>result[key]\<close> is a list, Python appends to that list object. When it is the
  list stored in the first child of that name, the stored list grows too; this model
  gives the value one call returns and does not follow that change of the tree.
\<close>

definition merge_entry :: "(string \<times> ydata) list \<Rightarrow> string \<times> ydata \<Rightarrow> (string \<times> ydata) list" where
  "merge_entry result item =
     (case item of (key, v) \<Rightarrow>
        (case map_of result key of
           Some (DList xs) \<Rightarrow> AList.update key (DList (xs @ [v])) result
         | Some old \<Rightarrow> AList.update key (DList [old, v]) result
         | None \<Rightarrow> AList.update key v result))"

fun to_dict :: "YAMLNode \<Rightarrow> string \<times> ydata"
and to_dict_children :: "YAMLNode list \<Rightarrow> (string \<times> ydata) list \<Rightarrow> (string \<times> ydata) list" where
  "to_dict (YAMLNode nm v cs) =
     (case v of
        Sequence xs \<Rightarrow> (nm, DList xs)
      | Scalar s \<Rightarrow> (nm, DScalar s)
      | Absent \<Rightarrow> (nm, DMap (to_dict_children cs [])))"
| "to_dict_children [] result = result"
| "to_dict_children (child # cs) result = to_dict_children cs (merge_entry result (to_dict child))"

text \<open>
  What the loop leaves under one key, written as a function of the values that arrive
  for that key, in order: \<open>acc\<close> is \<open>result.get(key)\<close> so far. It is used to state
  and prove the merge rule; the code is \<open>merge_entry\<close>.
\<close>

fun combine :: "ydata option \<Rightarrow> ydata list \<Rightarrow> ydata option" where
  "combine acc [] = acc"
| "combine None (v # vs) = combine (Some v) vs"
| "combine (Some (DList xs)) (v # vs) = combine (Some (DList (xs @ [v]))) vs"
| "combine (Some old) (v # vs) = combine (Some (DList [old, v])) vs"

definition build :: "FluentYAMLBuilder \<Rightarrow> error + ydata" where
  "build b = (case root b of None \<Rightarrow> Inl AttributeError | Some r \<Rightarrow> Inr (DMap [to_dict r]))"

text \<open>
  The YAML library (ruamel.yaml) is outside the repository: \<open>ydump\<close> is its \<open>dump\<close>
  with the indentation settings of \<open>to_yaml\<close>, \<open>yload\<close> its \<open>load\<close>, which returns
  the parsed document or raises.
\<close>

definition to_yaml :: "(ydata \<Rightarrow> string) \<Rightarrow> FluentYAMLBuilder \<Rightarrow> error + string" where
  "to_yaml ydump b = (case build b of Inl e \<Rightarrow> Inl e | Inr d \<Rightarrow> Inr (ydump d))"

definition set_current_value :: "yvalue \<Rightarrow> FluentYAMLBuilder \<Rightarrow> FluentYAMLBuilder outcome" where
  "set_current_value v b =
     (case root b of
        None \<Rightarrow> Raised AttributeError b
      | Some r \<Rightarrow> Returned (b\<lparr>root := Some (update_at (set_value v) (current b) r)\<rparr>))"

text \<open>
  \<open>_parse_dict_to_tree\<close>, and \<open>parse_items\<close> for its loop over \<open>data.items()\<close>. The
  source calls \<open>add_child(key, stay=True)\<close>, \<open>_parse_dict_to_tree(value)\<close> and \<open>up()\<close>
  for each item.
\<close>

fun parse_dict_to_tree :: "ydata \<Rightarrow> FluentYAMLBuilder \<Rightarrow> FluentYAMLBuilder outcome"
and parse_items :: "(string \<times> ydata) list \<Rightarrow> FluentYAMLBuilder \<Rightarrow> FluentYAMLBuilder outcome" where
  "parse_dict_to_tree (DMap kvs) b = parse_items kvs b"
| "parse_dict_to_tree (DList xs) b = set_current_value (Sequence xs) b"
| "parse_dict_to_tree (DScalar s) b = set_current_value (Scalar s) b"
| "parse_items [] b = Returned b"
| "parse_items ((key, v) # kvs) b =
     (case parse_dict_to_tree v (add_child key Absent True b) of
        Raised e b' \<Rightarrow> Raised e b'
      | Returned b1 \<Rightarrow>
          (case up b1 of
             Raised e b' \<Rightarrow> Raised e b'
           | Returned b2 \<Rightarrow> parse_items kvs b2))"

text \<open>
  \<open>load_from_string\<close>. \<open>root_key\<close> is the first key of the parsed dict and
  \<open>data[root_key]\<close> the value stored with it.
\<close>

definition load_from_string ::
  "(string \<Rightarrow> error + ydata) \<Rightarrow> string \<Rightarrow> FluentYAMLBuilder \<Rightarrow> FluentYAMLBuilder outcome" where
  "load_from_string yload yaml_content b =
     (case yload yaml_content of
        Inl e \<Rightarrow> Raised e b
      | Inr loaded \<Rightarrow>
          (case (if truthy loaded then loaded else DMap []) of
             DMap kvs \<Rightarrow>
               (case kvs of
                  [] \<Rightarrow> Raised StopIteration b
                | (root_key, v) # rest \<Rightarrow>
                    (case root b of
                       None \<Rightarrow> parse_dict_to_tree v (add_child root_key Absent True b)
                     | Some r \<Rightarrow>
                         if name r \<noteq> root_key then Raised (RootMismatchError (name r) root_key) b
                         else parse_dict_to_tree v b))
           | _ \<Rightarrow> Raised InvalidFormatError b))"

section \<open>Command templates and the manager strategy (manager\_strategy.py)\<close>

text \<open>
  Modelled from the spec: \<open>VmType\<close> (domain/multipass/vm\_type.py) is not among the
  source files; the specification gives the roles manager and worker.
\<close>

datatype VmType = MANAGER | WORKER

text \<open>\<open>VmEntity\<close>, with the fields of vm\_entity.py.\<close>

record VmEntity =
  vm_instance :: string
  vm_type :: VmType
  ipaddress :: string
  gateway :: string
  memory :: string
  disk :: string

text \<open>
  Modelled from the spec: the VM directory (\<open>PortVmRepository\<close>) is not among the source
  files. It is the list of the known VM entities, and \<open>find_vm_instances_by_type\<close> gives
  the instance names of the entities of a role, in the directory's order.
\<close>

definition find_vm_instances_by_type :: "VmEntity list \<Rightarrow> VmType \<Rightarrow> string list" where
  "find_vm_instances_by_type vms t = map vm_instance (filter (\<lambda>vm. VmEntity.vm_type vm = t) vms)"

text \<open>
  \<open>CommandEntity\<close> and \<open>ExecutableCommandEntity\<close> are not among the source files.
  \<open>CommandEntity\<close> has the fields that \<open>categorize\<close> reads. An
  \<open>ExecutableCommandEntity\<close> is built from the four keyword arguments
  \<open>vm_instance_name\<close>, \<open>description\<close>, \<open>command\<close> and \<open>runner\<close>, in this order; its
  selectors carry the prefix \<open>exec\<close> to keep them apart from the template's fields.
\<close>

record CommandEntity =
  index :: int
  description :: string
  command :: string
  runner :: string

datatype 'r ExecutableCommandEntity =
  ExecutableCommandEntity (vm_instance_name: string) (exec_description: string)
    (exec_command: string) (exec_runner: 'r)

text \<open>
  The strategy object: the fields that \<open>__init__\<close> hands to the base class
  \<open>VmTypeStrategy\<close> (not among the source files). \<open>get_runner\<close> is
  \<open>self.command_runner_factory.get_runner\<close>; it and
  \<open>CommandRunnerType.get_enum_from_value\<close>, a parameter of \<open>categorize\<close> below, are
  outside the source files and return a value or raise.
\<close>

record ('k, 'r) VmTypeStrategy =
  vm_type :: VmType
  vm_repository :: "VmEntity list"
  get_runner :: "'k \<Rightarrow> error + 'r"

text \<open>
  \<open>template.format(vm_instance=vm)\<close>: Python's \<open>str.format\<close> with the one keyword
  argument and no positional argument. The result is \<open>Some (Inr s)\<close> when the call
  returns \<open>s\<close>, \<open>Some (Inl e)\<close> when it raises \<open>e\<close>, and \<open>None\<close> for the templates
  that this model does not cover. The template is read from left to right:
  \<^item> \<open>{{\<close> and \<open>}}\<close> give one brace; a single \<open>}\<close>, and a \<open>{\<close> at the end of the
    template, raise \<open>ValueError\<close>;
  \<^item> after any other \<open>{\<close> a field name runs up to the first \<open>}\<close>, \<open>{\<close>, \<open>:\<close>,
    \<open>!\<close>, \<open>[\<close> or \<open>.\<close>. If the template ends first, or the name ends at a \<open>{\<close>,
    the call raises \<open>ValueError\<close>. If it ends at \<open>}\<close>, the field \<open>{vm_instance}\<close>
    gives \<open>vm\<close>, the empty field \<open>{}\<close> raises \<open>IndexError\<close> (there are no positional
    arguments), and any other name that is not a number raises \<open>KeyError\<close> with that
    name;
  \<^item> not covered (\<open>None\<close>): a field with a conversion, a format specification, an
    index or an attribute (\<open>{vm_instance!r}\<close>, \<open>{vm_instance:>8}\<close>,
    \<open>{vm_instance[0]}\<close>, \<open>{vm_instance.real}\<close>), whose rendering the model does not
    follow, and a field whose name is a number (\<open>{0}\<close>).
  \<open>emit s r\<close> puts the text \<open>s\<close> before the rest \<open>r\<close> of the output.
\<close>

definition field_stop :: "char \<Rightarrow> bool" where
  "field_stop c =
     (c = CHR ''}'' \<or> c = CHR ''{'' \<or> c = CHR '':'' \<or> c = CHR ''!'' \<or> c = CHR ''['' \<or> c = CHR ''.'')"

definition is_digit :: "char \<Rightarrow> bool" where
  "is_digit c = (c \<in> set ''0123456789'')"

definition emit :: "string \<Rightarrow> (error + string) option \<Rightarrow> (error + string) option" where
  "emit s r =
     (case r of
        None \<Rightarrow> None
      | Some (Inl e) \<Rightarrow> Some (Inl e)
      | Some (Inr out) \<Rightarrow> Some (Inr (s @ out)))"

function py_format :: "string \<Rightarrow> string \<Rightarrow> (error + string) option" where
  "py_format vm [] = Some (Inr [])"
| "py_format vm (c # cs) =
     (if c = CHR ''{'' then
        (case cs of
           [] \<Rightarrow> Some (Inl FormatValueError)
         | d # ds \<Rightarrow>
             if d = CHR ''{'' then emit [CHR ''{''] (py_format vm ds)
             else
               (case dropWhile (\<lambda>x. \<not> field_stop x) cs of
                  [] \<Rightarrow> Some (Inl FormatValueError)
                | t # rest \<Rightarrow>
                    if t = CHR ''}'' then
                      (if takeWhile (\<lambda>x. \<not> field_stop x) cs = ''vm_instance''
                       then emit vm (py_format vm rest)
                       else if takeWhile (\<lambda>x. \<not> field_stop x) cs = [] then Some (Inl IndexError)
                       else if list_all is_digit (takeWhile (\<lambda>x. \<not> field_stop x) cs) then None
                       else Some (Inl (KeyError (takeWhile (\<lambda>x. \<not> field_stop x) cs))))
                    else if t = CHR ''{'' then Some (Inl FormatValueError)
                    else None))
      else if c = CHR ''}'' then
        (case cs of
           [] \<Rightarrow> Some (Inl FormatValueError)
         | d # ds \<Rightarrow>
             if d = CHR ''}'' then emit [CHR ''}''] (py_format vm ds)
             else Some (Inl FormatValueError))
      else emit [c] (py_format vm cs))"
  by pat_completeness auto
termination
proof (relation "measure (\<lambda>(vm, s). length s)")
  show "wf (measure (\<lambda>(vm, s). length s))" by simp
next
  fix vm :: string and c :: char and cs :: string and t :: char and rest :: string
  assume "dropWhile (\<lambda>x. \<not> field_stop x) cs = t # rest"
  then have "length (t # rest) \<le> length cs"
    using length_dropWhile_le [of "\<lambda>x. \<not> field_stop x" cs] by simp
  then show "((vm, rest), vm, c # cs) \<in> measure (\<lambda>(vm, s). length s)"
    by simp
qed auto

text \<open>
  The execution plan \<open>Dict[str, Dict[int, ExecutableCommandEntity]]\<close>, and
  \<open>dict.setdefault\<close>.
\<close>

type_synonym 'r plan = "string \<rightharpoonup> (int \<rightharpoonup> 'r ExecutableCommandEntity)"

definition setdefault :: "'a \<Rightarrow> 'b \<Rightarrow> ('a \<rightharpoonup> 'b) \<Rightarrow> ('a \<rightharpoonup> 'b)" where
  "setdefault k d m = (case m k of None \<Rightarrow> m(k \<mapsto> d) | Some v \<Rightarrow> m)"

text \<open>
  \<open>ManagerStrategy.categorize\<close>. The plan is mutated in place: \<open>setdefault\<close> runs
  before the arguments of \<open>ExecutableCommandEntity(...)\<close> are evaluated, so an exception
  raised by one of them leaves the plan with the row that \<open>setdefault\<close> may have added.
  The method returns nothing; the outcome carries the plan. The result is \<open>None\<close> where
  \<open>py_format\<close> does not cover the description or the command.
\<close>

definition categorize ::
  "(string \<Rightarrow> error + 'k) \<Rightarrow> ('k, 'r) VmTypeStrategy \<Rightarrow> CommandEntity \<Rightarrow> 'r plan \<Rightarrow>
     'r plan outcome option" where
  "categorize get_enum_from_value self cmd executable_commands =
     (let vm_instance_names = find_vm_instances_by_type (vm_repository self) (vm_type self) in
      if length vm_instance_names = 1 then
        (let vm_instance_name = vm_instance_names ! 0;
             plan1 = setdefault vm_instance_name Map.empty executable_commands
         in case py_format vm_instance_name (description cmd) of
              None \<Rightarrow> None
            | Some (Inl e) \<Rightarrow> Some (Raised e plan1)
            | Some (Inr d) \<Rightarrow>
           (case py_format vm_instance_name (command cmd) of
              None \<Rightarrow> None
            | Some (Inl e) \<Rightarrow> Some (Raised e plan1)
            | Some (Inr c) \<Rightarrow>
           (case get_enum_from_value (runner cmd) of
              Inl e \<Rightarrow> Some (Raised e plan1)
            | Inr kind \<Rightarrow>
           (case get_runner self kind of
              Inl e \<Rightarrow> Some (Raised e plan1)
            | Inr r \<Rightarrow>
           (case plan1 vm_instance_name of
              None \<Rightarrow> Some (Raised (KeyError vm_instance_name) plan1)
            | Some row \<Rightarrow>
                Some (Returned (plan1(vm_instance_name \<mapsto>
                  row(index cmd \<mapsto> ExecutableCommandEntity vm_instance_name d c r)))))))))
      else Some (Returned executable_commands))"

section \<open>The command runner (command\_runner\_ui.py)\<close>

text \<open>
  A call \<open>self.ui.update_status(task=..., step=..., result=..., instance=...)\<close>; the
  fields \<open>result_arg\<close> and \<open>instance_arg\<close> are the keyword arguments \<open>result\<close> and
  \<open>instance\<close>.
\<close>

record status_update =
  task :: string
  step :: string
  result_arg :: string
  instance_arg :: string

text \<open>
  \<open>CommandRunnerUI.run\<close>, without its scheduling: \<open>command_list\<close> is the dict handed
  to \<open>__init__\<close>, \<open>instances\<close> its keys, and \<open>execute\<close> stands for what
  \<open>CommandExecuter.execute\<close> (not among the source files) does with one instance's
  commands: it returns a value (\<open>Inr\<close>) or raises (\<open>Inl\<close>). With
  \<open>return_exceptions=True\<close>, \<open>asyncio.gather\<close> returns, in the order of the tasks, each
  task's value or the exception it raised. The result pairs these with the status updates
  that \<open>run\<close> itself sends; the updates a task sends and the UI thread are not modelled.
  A key of \<open>instances\<close> is always a key of the dict, so the \<open>KeyError\<close> of
  \<open>self.command_list[vm]\<close> is a branch that is never taken.
\<close>

definition run ::
  "('row \<Rightarrow> 'x + 'v) \<Rightarrow> (string \<times> 'row) list \<Rightarrow> error + ('x + 'v) list \<times> status_update list" where
  "run execute command_list =
     (let instances = map fst command_list in
      if \<exists>vm \<in> set instances. map_of command_list vm = None
      then Inl (KeyError (hd (filter (\<lambda>vm. map_of command_list vm = None) instances)))
      else
        (let results = map (\<lambda>vm. execute (the (map_of command_list vm))) instances
         in Inr (results,
                 [\<lparr>task = ''finished'', step = ''execution'', result_arg = ''success'', instance_arg = ''all''\<rparr>])))"

section \<open>The netplan repository (netplan\_repository.py)\<close>

text \<open>
  \<open>Network\<close> (domain/network/network.py) is not among the source files; \<open>create\<close>
  reads the two strings \<open>data.ip_address.ip_address\<close> and \<open>data.gateway.ip_address\<close>
  of it. The repository's state is its builder, which \<open>__init__\<close> creates with the
  root \<open>network\<close>; \<open>create\<close> returns what \<open>build()\<close> returns and leaves the builder
  as the chain of calls left it.
\<close>

record Network =
  ip_address :: string
  gateway :: string

definition PortNetplanRepositoryYaml_init :: FluentYAMLBuilder where
  "PortNetplanRepositoryYaml_init = FluentYAMLBuilder_init (Some ''network'')"

definition create :: "Network \<Rightarrow> FluentYAMLBuilder \<Rightarrow> (error + ydata) \<times> FluentYAMLBuilder" where
  "create data builder =
     (let b1 = add_child ''version'' (Scalar (SInt 2)) True builder;
          b2 = add_child ''renderer'' (Scalar (SStr ''networkd'')) True b1;
          b3 = add_child ''ethernets'' Absent False b2;
          b4 = add_child ''ens3'' Absent False b3;
          b5 = add_child ''dhcp4'' (Scalar (SStr ''no'')) True b4;
          b6 = add_child ''addresses'' (Sequence [DScalar (SStr (ip_address data @ ''/24''))]) True b5;
          b7 = add_child ''routes''
                 (Sequence [DMap [(''to'', DScalar (SStr ''0.0.0.0/0'')),
                                  (''via'', DScalar (SStr (gateway data)))]]) True b6;
          b8 = add_child ''nameservers'' Absent False b7;
          b9 = add_child ''addresses''
                 (Sequence [DScalar (SStr ''8.8.8.8''), DScalar (SStr ''8.8.4.4'')]) True b8
      in (build b9, b9))"

section \<open>Notions used to state the properties\<close>

text \<open>The names of the nodes that a path of child indices passes, below the node it starts at.\<close>

fun names_on :: "YAMLNode \<Rightarrow> nat list \<Rightarrow> string list" where
  "names_on n [] = []"
| "names_on n (i # p) = name (children n ! i) # names_on (children n ! i) p"

text \<open>
  Pre-order traversal, as the list of the paths of all nodes: a node comes before the
  nodes of its subtree, and the whole subtree of a child before the next child.
  \<open>preorder_children i cs\<close> lists the subtrees of the children \<open>cs\<close>, the first of
  which has the index \<open>i\<close>. \<open>name_at r p\<close> is the name of the node at the path \<open>p\<close>.
\<close>

fun preorder :: "YAMLNode \<Rightarrow> nat list list"
and preorder_children :: "nat \<Rightarrow> YAMLNode list \<Rightarrow> nat list list" where
  "preorder (YAMLNode nm v cs) = [] # preorder_children 0 cs"
| "preorder_children i [] = []"
| "preorder_children i (c # cs) = map ((#) i) (preorder c) @ preorder_children (Suc i) cs"

definition name_at :: "YAMLNode \<Rightarrow> nat list \<Rightarrow> string option" where
  "name_at r p = map_option name (node_at r p)"

text \<open>
  Two example builders: the tree \<open>root \<rightarrow> a \<rightarrow> b\<close>, and a tree in which the name \<open>t\<close>
  occurs in the subtree of the first child and again as the second child.
\<close>

definition ab_builder :: FluentYAMLBuilder where
  "ab_builder = add_child ''b'' Absent False (add_child ''a'' Absent False (FluentYAMLBuilder_init (Some ''root'')))"

definition search_example :: FluentYAMLBuilder where
  "search_example =
     \<lparr>root = Some (YAMLNode ''root'' Absent
        [YAMLNode ''a'' Absent [YAMLNode ''a'' Absent [], YAMLNode ''t'' (Scalar (SInt 1)) []],
         YAMLNode ''t'' (Scalar (SInt 2)) []]),
      current = []\<rparr>"

text \<open>A parent with two children of the same name.\<close>

definition twins :: YAMLNode where
  "twins = YAMLNode ''root'' Absent
     [YAMLNode ''a'' (Scalar (SInt 1)) [], YAMLNode ''a'' (Scalar (SInt 2)) []]"

text \<open>
  A command template as the specification describes it: literal text, free of braces,
  and occurrences of the placeholder \<open>{vm_instance}\<close>. \<open>template_text\<close> is the string
  of the template, \<open>fill vm\<close> the string with the instance name in place of every
  placeholder.
\<close>

datatype piece = Lit string | Placeholder

fun template_text :: "piece list \<Rightarrow> string" where
  "template_text [] = []"
| "template_text (Lit s # ps) = s @ template_text ps"
| "template_text (Placeholder # ps) = ''{vm_instance}'' @ template_text ps"

fun fill :: "string \<Rightarrow> piece list \<Rightarrow> string" where
  "fill vm [] = []"
| "fill vm (Lit s # ps) = s @ fill vm ps"
| "fill vm (Placeholder # ps) = vm @ fill vm ps"

fun no_braces :: "piece list \<Rightarrow> bool" where
  "no_braces [] = True"
| "no_braces (Lit s # ps) = (CHR ''{'' \<notin> set s \<and> CHR ''}'' \<notin> set s \<and> no_braces ps)"
| "no_braces (Placeholder # ps) = no_braces ps"

text \<open>
  A strategy for the manager role over a directory with one manager and one worker, and
  a template.
\<close>

definition one_manager :: "(string, string) VmTypeStrategy" where
  "one_manager =
     \<lparr>vm_type = MANAGER,
      vm_repository =
        [\<lparr>vm_instance = ''mgr-1'', vm_type = MANAGER, ipaddress = [], gateway = [],
          memory = ''2G'', disk = ''10G''\<rparr>,
         \<lparr>vm_instance = ''wrk-1'', vm_type = WORKER, ipaddress = [], gateway = [],
          memory = ''2G'', disk = ''10G''\<rparr>],
      get_runner = (\<lambda>kind. Inr kind)\<rparr>"

definition echo_template :: CommandEntity where
  "echo_template =
     \<lparr>index = 3, description = ''greet {vm_instance}'', command = ''echo {vm_instance}'',
      runner = ''multipass''\<rparr>"

text \<open>The tree that the calls of \<open>create\<close> build in a new repository.\<close>

definition netplan_tree :: "Network \<Rightarrow> YAMLNode" where
  "netplan_tree data =
     YAMLNode ''network'' Absent
        [YAMLNode ''version'' (Scalar (SInt 2)) [],
         YAMLNode ''renderer'' (Scalar (SStr ''networkd'')) [],
         YAMLNode ''ethernets'' Absent
          [YAMLNode ''ens3'' Absent
            [YAMLNode ''dhcp4'' (Scalar (SStr ''no'')) [],
             YAMLNode ''addresses'' (Sequence [DScalar (SStr (ip_address data @ ''/24''))]) [],
             YAMLNode ''routes''
              (Sequence [DMap [(''to'', DScalar (SStr ''0.0.0.0/0'')),
                               (''via'', DScalar (SStr (gateway data)))]]) [],
             YAMLNode ''nameservers'' Absent
              [YAMLNode ''addresses''
                (Sequence [DScalar (SStr ''8.8.8.8''), DScalar (SStr ''8.8.4.4'')]) []]]]]"

section \<open>Properties of the tree builder\<close>

subsection \<open>Conversion to a map\<close>

lemma fst_to_dict: "fst (to_dict n) = name n"
  by (cases n) (simp split: yvalue.splits)

lemma map_of_merge_entry:
  "map_of (merge_entry result item) k =
     (if k = fst item then combine (map_of result (fst item)) [snd item] else map_of result k)"
  by (cases item) (auto simp: merge_entry_def update_conv' split: option.splits ydata.splits)

lemma combine_snoc: "combine acc (vs @ [v]) = combine (combine acc vs) [v]"
  by (induction acc vs rule: combine.induct) simp_all

lemma combine_Cons: "combine acc (v # vs) = combine (combine acc [v]) vs"
  by (cases acc; cases "the acc") simp_all

lemma lookup_children:
  "map_of (to_dict_children cs result) k =
     combine (map_of result k) (map (\<lambda>c. snd (to_dict c)) (filter (\<lambda>c. name c = k) cs))"
proof (induction cs arbitrary: result)
  case Nil
  show ?case by simp
next
  case (Cons c cs)
  show ?case
  proof (cases "name c = k")
    case True
    have "map_of (to_dict_children (c # cs) result) k =
            combine (combine (map_of result k) [snd (to_dict c)])
              (map (\<lambda>c. snd (to_dict c)) (filter (\<lambda>c. name c = k) cs))"
      using True by (simp add: Cons.IH map_of_merge_entry fst_to_dict)
    also have "\<dots> = combine (map_of result k)
              (snd (to_dict c) # map (\<lambda>c. snd (to_dict c)) (filter (\<lambda>c. name c = k) cs))"
      by (rule combine_Cons [symmetric])
    finally show ?thesis using True by simp
  next
    case False
    then show ?thesis
      by (simp add: Cons.IH map_of_merge_entry fst_to_dict)
  qed
qed

lemma combine_list: "combine (Some (DList xs)) vs = Some (DList (xs @ vs))"
  by (induction vs arbitrary: xs) simp_all

lemma combine_first_not_list:
  assumes "\<forall>xs. v1 \<noteq> DList xs"
  shows "combine (Some v1) (v2 # vs) = Some (DList (v1 # v2 # vs))"
  using assms by (cases v1) (simp_all add: combine_list)

text \<open>
  Claim C2, as amended. A node without a value of its own converts to a map of its
  children. When two or more children share a name and the converted value of the first
  of them is not a list, the map holds under that name the list of their converted
  values, in the order of the children: the first collision wraps the two values into a
  list and every later one appends.
\<close>

theorem to_dict_merges_same_named_children:
  assumes "nvalue node = Absent"
    and "filter (\<lambda>c. name c = key) (children node) = c1 # c2 # rest"
    and "\<forall>xs. snd (to_dict c1) \<noteq> DList xs"
  shows "snd (to_dict node) = DMap (to_dict_children (children node) []) \<and>
         map_of (to_dict_children (children node) []) key =
           Some (DList (map (\<lambda>c. snd (to_dict c)) (c1 # c2 # rest)))"
proof -
  have "snd (to_dict node) = DMap (to_dict_children (children node) [])"
    using assms(1) by (cases node) simp
  moreover have "map_of (to_dict_children (children node) []) key =
      Some (DList (map (\<lambda>c. snd (to_dict c)) (c1 # c2 # rest)))"
    using assms(2,3) by (simp add: lookup_children combine_first_not_list)
  ultimately show ?thesis by simp
qed

theorem to_dict_merges_same_named_children_witness:
  "map_of (to_dict_children
      [YAMLNode ''route'' (Scalar (SStr ''A'')) [],
       YAMLNode ''other'' Absent [],
       YAMLNode ''route'' Absent [YAMLNode ''to'' (Scalar (SStr ''B'')) []],
       YAMLNode ''route'' (Sequence [DScalar (SStr ''C'')]) []] []) ''route'' =
   Some (DList [DScalar (SStr ''A''), DMap [(''to'', DScalar (SStr ''B''))], DList [DScalar (SStr ''C'')]])"
  using to_dict_merges_same_named_children
    [of "YAMLNode ''p'' Absent
      [YAMLNode ''route'' (Scalar (SStr ''A'')) [],
       YAMLNode ''other'' Absent [],
       YAMLNode ''route'' Absent [YAMLNode ''to'' (Scalar (SStr ''B'')) []],
       YAMLNode ''route'' (Sequence [DScalar (SStr ''C'')]) []]" "''route''"
       "YAMLNode ''route'' (Scalar (SStr ''A'')) []"
       "YAMLNode ''route'' Absent [YAMLNode ''to'' (Scalar (SStr ''B'')) []]"
       "[YAMLNode ''route'' (Sequence [DScalar (SStr ''C'')]) []]"]
  by (simp add: merge_entry_def)

text \<open>
  Claim C2 as stated fails where the first of the same-named children holds a sequence:
  the second value is appended to that sequence, so children holding \<open>[1]\<close> and
  \<open>2\<close> give \<open>[1, 2]\<close> and not \<open>[[1], 2]\<close>.
\<close>

theorem to_dict_sequence_first_counterexample:
  "snd (to_dict (YAMLNode ''p'' Absent
      [YAMLNode ''route'' (Sequence [DScalar (SInt 1)]) [],
       YAMLNode ''route'' (Scalar (SInt 2)) []])) =
     DMap [(''route'', DList [DScalar (SInt 1), DScalar (SInt 2)])] \<and>
   snd (to_dict (YAMLNode ''p'' Absent
      [YAMLNode ''route'' (Sequence [DScalar (SInt 1)]) [],
       YAMLNode ''route'' (Scalar (SInt 2)) []])) \<noteq>
     DMap [(''route'', DList [DList [DScalar (SInt 1)], DScalar (SInt 2)])]"
  by (simp add: merge_entry_def)


subsection \<open>Serialising and loading again\<close>

text \<open>
  Claim C1 fails on the code. \<open>_parse_dict_to_tree\<close> adds each child with
  \<open>stay=True\<close>, so the cursor does not enter the child: the value meant for the child
  is stored in the node the cursor is on, and \<open>up()\<close> then leaves that node. For the
  tree \<open>r\<close> with the one leaf \<open>a: 1\<close>, whenever the YAML library reads back the
  map it has written, loading the text into a fresh builder gives the root \<open>r\<close>
  holding \<open>1\<close> and a child \<open>a\<close> without a value.
\<close>

theorem roundtrip_misplaces_leaf_value:
  assumes "yload (ydump (DMap [(''r'', DMap [(''a'', DScalar (SInt 1))])])) =
             Inr (DMap [(''r'', DMap [(''a'', DScalar (SInt 1))])])"
  shows "\<exists>txt. to_yaml ydump (add_child ''a'' (Scalar (SInt 1)) True (FluentYAMLBuilder_init (Some ''r''))) = Inr txt \<and>
           load_from_string yload txt (FluentYAMLBuilder_init None) =
             Returned \<lparr>root = Some (YAMLNode ''r'' (Scalar (SInt 1)) [YAMLNode ''a'' Absent []]),
                       current = []\<rparr>"
  using assms
  by (simp add: to_yaml_def build_def add_child_def FluentYAMLBuilder_init_def yaml_node_add_child_def
      load_from_string_def merge_entry_def set_current_value_def set_value_def up_def)


theorem roundtrip_misplaces_leaf_value_witness:
  "load_from_string (\<lambda>s. Inr (DMap [(''r'', DMap [(''a'', DScalar (SInt 1))])])) ''r: {a: 1}''
     (FluentYAMLBuilder_init None) =
   Returned \<lparr>root = Some (YAMLNode ''r'' (Scalar (SInt 1)) [YAMLNode ''a'' Absent []]), current = []\<rparr>"
  using roundtrip_misplaces_leaf_value
    [of "\<lambda>s. Inr (DMap [(''r'', DMap [(''a'', DScalar (SInt 1))])])" "\<lambda>d. ''r: {a: 1}''"]
  by (simp add: to_yaml_def build_def add_child_def FluentYAMLBuilder_init_def yaml_node_add_child_def)

subsection \<open>Deleting the node under the cursor\<close>

text \<open>
  Claim C6 fails on the code where a sibling shares the cursor's name.
  \<open>delete_current\<close> hands the parent only the name of the node under the cursor, so
  whatever \<open>remove_child\<close> does, deleting at the first and at the second of two
  children named \<open>a\<close> leaves the same tree: it cannot be, in both cases, the tree without
  exactly the node the cursor was on.
\<close>

theorem delete_current_removes_by_name:
  "delete_current remove_child \<lparr>root = Some twins, current = [0]\<rparr> =
     delete_current remove_child \<lparr>root = Some twins, current = [1]\<rparr> \<and>
   \<not> (delete_current remove_child \<lparr>root = Some twins, current = [0]\<rparr> =
          Returned \<lparr>root = Some (YAMLNode ''root'' Absent [YAMLNode ''a'' (Scalar (SInt 2)) []]), current = []\<rparr> \<and>
        delete_current remove_child \<lparr>root = Some twins, current = [1]\<rparr> =
          Returned \<lparr>root = Some (YAMLNode ''root'' Absent [YAMLNode ''a'' (Scalar (SInt 1)) []]), current = []\<rparr>)"
  by (auto simp: delete_current_def twins_def)

text \<open>
  With a \<open>remove_child\<close> that drops the children of the given name, deleting at the
  second twin removes both. The first half of the claim holds: the call raises
  \<open>CannotDeleteRootError\<close> exactly when the cursor is on the root, and otherwise returns
  with the cursor on the former parent.
\<close>

lemma delete_current_drops_both_twins:
  "delete_current yaml_node_remove_child \<lparr>root = Some twins, current = [1]\<rparr> =
     Returned \<lparr>root = Some (YAMLNode ''root'' Absent []), current = []\<rparr>"
  by (simp add: delete_current_def twins_def yaml_node_remove_child_def)

lemma delete_current_root_iff:
  assumes "root b = Some r" and "node_at r (current b) = Some cur"
  shows "delete_current remove_child b = Raised CannotDeleteRootError b \<longleftrightarrow> current b = []"
    and "current b \<noteq> [] \<Longrightarrow> \<exists>b'. delete_current remove_child b = Returned b' \<and> current b' = butlast (current b)"
  using assms by (simp_all add: delete_current_def)


text \<open>
  Where no sibling shares the name of the node under the cursor, that \<open>remove_child\<close>
  removes exactly this node: the parent keeps its other children, in their order.
\<close>

lemma node_at_append:
  "node_at r (p @ q) = (case node_at r p of None \<Rightarrow> None | Some m \<Rightarrow> node_at m q)"
  by (induction p arbitrary: r) simp_all

lemma node_at_update_at:
  "node_at r p = Some m \<Longrightarrow> node_at (update_at f p r) p = Some (f m)"
  by (induction p arbitrary: r) (auto split: if_splits)

lemma update_at_agree:
  "node_at r p = Some m \<Longrightarrow> f m = g m \<Longrightarrow> update_at f p r = update_at g p r"
  by (induction p arbitrary: r) (auto split: if_splits)

lemma filter_all_but_one:
  assumes "\<forall>c \<in> set xs. P c" and "\<forall>c \<in> set ys. P c" and "\<not> P x"
  shows "filter P (xs @ x # ys) = xs @ ys"
  using assms by simp

lemma filter_other_names:
  assumes "i < length cs"
    and "\<forall>j<length cs. j \<noteq> i \<longrightarrow> name (cs ! j) \<noteq> name (cs ! i)"
  shows "filter (\<lambda>c. name c \<noteq> name (cs ! i)) cs = take i cs @ drop (Suc i) cs"
proof -
  have 1: "\<forall>c \<in> set (take i cs). name c \<noteq> name (cs ! i)"
    using assms by (auto simp: in_set_conv_nth)
  have 2: "\<forall>c \<in> set (drop (Suc i) cs). name c \<noteq> name (cs ! i)"
    using assms by (auto simp: in_set_conv_nth)
  have "filter (\<lambda>c. name c \<noteq> name (cs ! i)) cs =
        filter (\<lambda>c. name c \<noteq> name (cs ! i)) (take i cs @ cs ! i # drop (Suc i) cs)"
    using id_take_nth_drop [OF assms(1)] by (rule arg_cong)
  also have "\<dots> = take i cs @ drop (Suc i) cs"
    using 1 2 by (intro filter_all_but_one) simp_all
  finally show ?thesis .
qed

lemma delete_current_unique_name:
  assumes "root b = Some r" and "current b = p @ [i]" and "node_at r p = Some par"
    and "i < length (children par)"
    and "\<forall>j<length (children par). j \<noteq> i \<longrightarrow> name (children par ! j) \<noteq> name (children par ! i)"
  shows "delete_current yaml_node_remove_child b =
           Returned \<lparr>root = Some (update_at
                       (\<lambda>n. YAMLNode (name n) (nvalue n) (take i (children n) @ drop (Suc i) (children n))) p r),
                     current = p\<rparr>"
proof -
  have cur: "node_at r (current b) = Some (children par ! i)"
    using assms(2,3,4) by (simp add: node_at_append)
  have "yaml_node_remove_child par (name (children par ! i)) =
          YAMLNode (name par) (nvalue par) (take i (children par) @ drop (Suc i) (children par))"
    using filter_other_names [OF assms(4,5)] by (simp add: yaml_node_remove_child_def)
  then have "update_at (\<lambda>n. yaml_node_remove_child n (name (children par ! i))) p r =
      update_at (\<lambda>n. YAMLNode (name n) (nvalue n) (take i (children n) @ drop (Suc i) (children n))) p r"
    using assms(3) by (intro update_at_agree [of r p par]) simp_all
  then show ?thesis
    using assms(1,2) cur by (simp add: delete_current_def)
qed

subsection \<open>Loading a document\<close>

lemma name_update_at:
  "(\<And>m. name (f m) = name m) \<Longrightarrow> name (update_at f p n) = name n"
  by (cases p) simp_all

lemma add_child_keeps_root_name:
  assumes "root b = Some r"
  shows "\<exists>r'. root (add_child nm v stay b) = Some r' \<and> name r' = name r"
  using assms
  by (cases "node_at r (current b)")
     (simp_all add: add_child_def name_update_at yaml_node_add_child_def)

lemma set_current_value_keeps_root_name:
  assumes "root b = Some r"
  shows "\<exists>b' r'. set_current_value v b = Returned b' \<and> root b' = Some r' \<and> name r' = name r"
  using assms by (simp add: set_current_value_def name_update_at set_value_def)

lemma up_keeps_root:
  assumes "root b = Some r"
  shows "\<exists>b'. up b = Returned b' \<and> root b' = Some r"
  using assms by (simp add: up_def)

lemma parse_returns:
  "\<forall>r. root b = Some r \<longrightarrow>
     (\<exists>b' r'. parse_dict_to_tree d b = Returned b' \<and> root b' = Some r' \<and> name r' = name r)"
  "\<forall>r. root b = Some r \<longrightarrow>
     (\<exists>b' r'. parse_items kvs b = Returned b' \<and> root b' = Some r' \<and> name r' = name r)"
proof (induction d b and kvs b rule: parse_dict_to_tree_parse_items.induct)
  case (1 kvs b)
  then show ?case by simp
next
  case (2 xs b)
  show ?case using set_current_value_keeps_root_name by simp
next
  case (3 s b)
  show ?case using set_current_value_keeps_root_name by simp
next
  case (4 b)
  show ?case by simp
next
  case (5 key v kvs b)
  show ?case
  proof (intro allI impI)
    fix r assume r: "root b = Some r"
    from add_child_keeps_root_name [OF r] obtain r0 where
      r0: "root (add_child key Absent True b) = Some r0" "name r0 = name r" by blast
    from "5.IH"(1) r0 obtain b1 r1 where
      b1: "parse_dict_to_tree v (add_child key Absent True b) = Returned b1"
          "root b1 = Some r1" "name r1 = name r" by fastforce
    from up_keeps_root [OF b1(2)] obtain b2 where
      b2: "up b1 = Returned b2" "root b2 = Some r1" by blast
    from "5.IH"(2) [OF b1(1) b2(1)] b2(2) b1(3) obtain b3 r3 where
      "parse_items kvs b2 = Returned b3" "root b3 = Some r3" "name r3 = name r" by fastforce
    with b1 b2 show "\<exists>b' r'. parse_items ((key, v) # kvs) b = Returned b' \<and> root b' = Some r' \<and> name r' = name r"
      by simp
  qed
qed

text \<open>
  The rule for the root. Let the text parse to a dict whose first key is \<open>root_key\<close>,
  with the value \<open>v\<close>. On a builder without a root, \<open>load_from_string\<close> returns: it
  makes a node named \<open>root_key\<close> the root and runs \<open>_parse_dict_to_tree\<close> on \<open>v\<close> with
  the cursor on it. On a builder with a root it returns, after running
  \<open>_parse_dict_to_tree\<close> on \<open>v\<close> at the cursor, when the root's name is \<open>root_key\<close>;
  otherwise it raises \<open>RootMismatchError\<close> and the builder is as it was. In both
  returning cases the root keeps the name \<open>root_key\<close>. This says which call is made,
  not what that call builds; the theorem after it does.
\<close>

theorem load_from_string_root_rule:
  assumes "yload txt = Inr (DMap ((root_key, v) # rest))"
  shows "(root b = None \<longrightarrow>
            (\<exists>b' r'. load_from_string yload txt b = Returned b' \<and>
                      parse_dict_to_tree v \<lparr>root = Some (YAMLNode root_key Absent []), current = []\<rparr> = Returned b' \<and>
                      root b' = Some r' \<and> name r' = root_key)) \<and>
         (\<forall>r. root b = Some r \<longrightarrow>
            (if name r = root_key
             then \<exists>b' r'. load_from_string yload txt b = Returned b' \<and>
                           parse_dict_to_tree v b = Returned b' \<and>
                           root b' = Some r' \<and> name r' = root_key
             else load_from_string yload txt b = Raised (RootMismatchError (name r) root_key) b))"
proof (intro conjI impI allI)
  assume none: "root b = None"
  have "load_from_string yload txt b =
          parse_dict_to_tree v \<lparr>root = Some (YAMLNode root_key Absent []), current = []\<rparr>"
    using assms none by (simp add: load_from_string_def add_child_def)
  moreover from parse_returns(1) [of "\<lparr>root = Some (YAMLNode root_key Absent []), current = []\<rparr>" v]
  obtain b' r' where "parse_dict_to_tree v \<lparr>root = Some (YAMLNode root_key Absent []), current = []\<rparr> = Returned b'"
    "root b' = Some r'" "name r' = root_key" by auto
  ultimately show "\<exists>b' r'. load_from_string yload txt b = Returned b' \<and>
                      parse_dict_to_tree v \<lparr>root = Some (YAMLNode root_key Absent []), current = []\<rparr> = Returned b' \<and>
                      root b' = Some r' \<and> name r' = root_key"
    by simp
next
  fix r assume r: "root b = Some r"
  show "if name r = root_key
        then \<exists>b' r'. load_from_string yload txt b = Returned b' \<and>
                      parse_dict_to_tree v b = Returned b' \<and>
                      root b' = Some r' \<and> name r' = root_key
        else load_from_string yload txt b = Raised (RootMismatchError (name r) root_key) b"
  proof (cases "name r = root_key")
    case True
    have "load_from_string yload txt b = parse_dict_to_tree v b"
      using assms r True by (simp add: load_from_string_def)
    moreover from parse_returns(1) [of b v] r True obtain b' r' where
      "parse_dict_to_tree v b = Returned b'" "root b' = Some r'" "name r' = root_key" by auto
    ultimately show ?thesis using True by simp
  next
    case False
    then show ?thesis using assms r by (simp add: load_from_string_def)
  qed
qed

theorem load_from_string_root_rule_witness:
  "load_from_string (\<lambda>s. Inr (DMap [(''network'', DMap [(''version'', DScalar (SInt 2))])])) ''network: {version: 2}''
      (FluentYAMLBuilder_init None) =
     Returned \<lparr>root = Some (YAMLNode ''network'' (Scalar (SInt 2)) [YAMLNode ''version'' Absent []]), current = []\<rparr> \<and>
   load_from_string (\<lambda>s. Inr (DMap [(''network'', DMap [(''version'', DScalar (SInt 2))])])) ''network: {version: 2}''
      (FluentYAMLBuilder_init (Some ''other'')) =
     Raised (RootMismatchError ''other'' ''network'') (FluentYAMLBuilder_init (Some ''other'')) \<and>
   load_from_string (\<lambda>s. Inr (DMap [(''network'', DMap [])])) ''network: {}''
      (FluentYAMLBuilder_init (Some ''network'')) =
     Returned (FluentYAMLBuilder_init (Some ''network''))"
  using load_from_string_root_rule
    [of "\<lambda>s. Inr (DMap [(''network'', DMap [(''version'', DScalar (SInt 2))])])" "''network: {version: 2}''"
        "''network''" "DMap [(''version'', DScalar (SInt 2))]" "[]" "FluentYAMLBuilder_init None"]
  by (simp add: load_from_string_def FluentYAMLBuilder_init_def add_child_def yaml_node_add_child_def
      set_current_value_def set_value_def up_def)

text \<open>
  Claim C7 fails on the code in its clause that the value is merged beneath the root;
  the rule for the root above holds. \<open>_parse_dict_to_tree\<close> adds each child with
  \<open>stay=True\<close>, so the cursor stays where it is: every key of the document, at whatever
  depth, becomes an empty child of the node under the cursor, and every scalar is stored
  in that node itself. Loading a text that parses to \<open>{r: {a: {b: 1}, c: 2}}\<close> into a
  builder without a root gives the root \<open>r\<close> holding \<open>2\<close>, with the three empty
  children \<open>a\<close>, \<open>b\<close> and \<open>c\<close>; converted back to a map, that is \<open>{r: 2}\<close>.
\<close>

theorem load_from_string_flattens_value:
  assumes "yload txt =
             Inr (DMap [(''r'', DMap [(''a'', DMap [(''b'', DScalar (SInt 1))]),
                                      (''c'', DScalar (SInt 2))])])"
  shows "load_from_string yload txt (FluentYAMLBuilder_init None) =
           Returned \<lparr>root = Some (YAMLNode ''r'' (Scalar (SInt 2))
                        [YAMLNode ''a'' Absent [], YAMLNode ''b'' Absent [], YAMLNode ''c'' Absent []]),
                     current = []\<rparr> \<and>
         build \<lparr>root = Some (YAMLNode ''r'' (Scalar (SInt 2))
                        [YAMLNode ''a'' Absent [], YAMLNode ''b'' Absent [], YAMLNode ''c'' Absent []]),
                current = []\<rparr> = Inr (DMap [(''r'', DScalar (SInt 2))])"
  using assms
  by (simp add: load_from_string_def FluentYAMLBuilder_init_def add_child_def yaml_node_add_child_def
      set_current_value_def set_value_def up_def build_def)

theorem load_from_string_flattens_value_witness:
  "load_from_string
      (\<lambda>s. Inr (DMap [(''r'', DMap [(''a'', DMap [(''b'', DScalar (SInt 1))]),
                                      (''c'', DScalar (SInt 2))])]))
      ''r: {a: {b: 1}, c: 2}'' (FluentYAMLBuilder_init None) =
     Returned \<lparr>root = Some (YAMLNode ''r'' (Scalar (SInt 2))
                  [YAMLNode ''a'' Absent [], YAMLNode ''b'' Absent [], YAMLNode ''c'' Absent []]),
               current = []\<rparr>"
  using load_from_string_flattens_value
    [of "\<lambda>s. Inr (DMap [(''r'', DMap [(''a'', DMap [(''b'', DScalar (SInt 1))]),
                                      (''c'', DScalar (SInt 2))])])" "''r: {a: {b: 1}, c: 2}''"]
  by simp

subsection \<open>Navigation by path\<close>

lemma first_named_Some:
  "first_named key cs = Some i \<Longrightarrow> i < length cs \<and> name (cs ! i) = key \<and> (\<forall>j<i. name (cs ! j) \<noteq> key)"
proof (induction cs arbitrary: i)
  case Nil
  then show ?case by simp
next
  case (Cons c cs)
  show ?case
  proof (cases "name c = key")
    case True
    with Cons.prems show ?thesis by simp
  next
    case False
    with Cons.prems obtain i' where i': "first_named key cs = Some i'" "i = Suc i'"
      by auto
    from Cons.IH [OF i'(1)] False i'(2) show ?thesis
      by (auto simp: less_Suc_eq_0_disj)
  qed
qed

lemma first_named_None: "first_named key cs = None \<longleftrightarrow> key \<notin> name ` set cs"
  by (induction cs) auto

lemma walk_traversed:
  "walk n trav path = (case walk n [] path of Inl (k, t) \<Rightarrow> Inl (k, trav @ t) | Inr p \<Rightarrow> Inr p)"
proof (induction path arbitrary: n trav)
  case Nil
  show ?case by simp
next
  case (Cons key path)
  show ?case
  proof (cases "find_child n key")
    case None
    then show ?thesis by simp
  next
    case (Some i)
    show ?thesis
      using Some Cons.IH [of "children n ! i" "trav @ [key]"] Cons.IH [of "children n ! i" "[key]"]
      by (auto split: sum.splits)
  qed
qed

lemma walk_Inr:
  "walk n trav path = Inr p \<Longrightarrow> node_at n p \<noteq> None \<and> names_on n p = path"
proof (induction path arbitrary: n trav p)
  case Nil
  then show ?case by auto
next
  case (Cons key path)
  from Cons.prems obtain i q where i: "find_child n key = Some i"
    and q: "walk (children n ! i) (trav @ [key]) path = Inr q" and p: "p = i # q"
    by (auto split: option.splits sum.splits)
  from first_named_Some [of key "children n" i] i
  have "i < length (children n)" "name (children n ! i) = key"
    by (simp_all add: find_child_def)
  with Cons.IH [OF q] p show ?case by simp
qed

lemma walk_Inl:
  "walk n trav path = Inl (key, t) \<Longrightarrow>
     \<exists>pre rest q m. path = pre @ key # rest \<and> t = trav @ pre \<and> walk n trav pre = Inr q \<and>
        node_at n q = Some m \<and> key \<notin> name ` set (children m)"
proof (induction path arbitrary: n trav)
  case Nil
  then show ?case by simp
next
  case (Cons k path)
  show ?case
  proof (cases "find_child n k")
    case None
    with Cons.prems have "key = k" "t = trav" by simp_all
    moreover from None have "k \<notin> name ` set (children n)"
      by (simp add: find_child_def first_named_None)
    ultimately have "k # path = [] @ key # path \<and> t = trav @ [] \<and> walk n trav [] = Inr [] \<and>
        node_at n [] = Some n \<and> key \<notin> name ` set (children n)"
      by simp
    then show ?thesis by blast
  next
    case (Some i)
    with Cons.prems have w: "walk (children n ! i) (trav @ [k]) path = Inl (key, t)"
      by (auto split: sum.splits)
    from first_named_Some [of k "children n" i] Some
    have i: "i < length (children n)" by (simp add: find_child_def)
    from Cons.IH [OF w] obtain pre rest q m where
      *: "path = pre @ key # rest" "t = (trav @ [k]) @ pre"
         "walk (children n ! i) (trav @ [k]) pre = Inr q"
         "node_at (children n ! i) q = Some m" "key \<notin> name ` set (children m)"
      by blast
    have "k # path = (k # pre) @ key # rest \<and> t = trav @ (k # pre) \<and>
        walk n trav (k # pre) = Inr (i # q) \<and> node_at n (i # q) = Some m \<and>
        key \<notin> name ` set (children m)"
      using * Some i by simp
    then show ?thesis by blast
  qed
qed

lemma walk_butlast:
  "walk n trav (path @ [key]) = Inr p \<Longrightarrow> walk n trav path = Inr (butlast p)"
proof (induction path arbitrary: n trav p)
  case Nil
  then show ?case by (auto split: option.splits sum.splits)
next
  case (Cons k path)
  from Cons.prems obtain i q where i: "find_child n k = Some i"
    and q: "walk (children n ! i) (trav @ [k]) (path @ [key]) = Inr q" and p: "p = i # q"
    by (auto split: option.splits sum.splits)
  from walk_Inr [OF q] have "q \<noteq> []" by auto
  with Cons.IH [OF q] i p show ?case by simp
qed

text \<open>
  Claim C8. On a builder with a tree, \<open>navigate_to path\<close> either returns with the
  cursor on a node of the tree such that the names of the nodes from the root down to
  it are the segments of the path (and, for a path that is not empty, \<open>up()\<close> from
  there gives the builder that navigating to the path without its last segment gives),
  or it raises \<open>PathNotFoundError key traversed\<close> and leaves the builder as it was,
  where \<open>traversed\<close> is a prefix of the path that can be navigated, \<open>key\<close> is the
  segment after it, and the node reached by \<open>traversed\<close> has no child named \<open>key\<close>.
\<close>

theorem navigate_to_follows_path:
  assumes "root b = Some r"
  shows "(\<exists>p n. navigate_to path b = Returned (b\<lparr>current := p\<rparr>) \<and>
                node_at r p = Some n \<and> names_on r p = path \<and>
                (path \<noteq> [] \<longrightarrow> up (b\<lparr>current := p\<rparr>) = navigate_to (butlast path) b)) \<or>
         (\<exists>traversed key rest q n.
                path = traversed @ key # rest \<and>
                navigate_to path b = Raised (PathNotFoundError key traversed) b \<and>
                navigate_to traversed b = Returned (b\<lparr>current := q\<rparr>) \<and>
                node_at r q = Some n \<and> key \<notin> name ` set (children n))"
proof (cases "walk r [] path")
  case (Inr p)
  from walk_Inr [OF Inr] obtain n where n: "node_at r p = Some n" "names_on r p = path"
    by auto
  have u: "up (b\<lparr>current := p\<rparr>) = navigate_to (butlast path) b" if "path \<noteq> []"
  proof -
    from that obtain xs x where xs: "path = xs @ [x]"
      by (metis append_butlast_last_id)
    from walk_butlast [of r "[]" xs x p] Inr xs have "walk r [] xs = Inr (butlast p)" by simp
    moreover from n(2) that have "p \<noteq> []" by auto
    ultimately show ?thesis
      using assms xs by (simp add: up_def navigate_to_def)
  qed
  have "navigate_to path b = Returned (b\<lparr>current := p\<rparr>)"
    using Inr assms by (simp add: navigate_to_def)
  with n u have "navigate_to path b = Returned (b\<lparr>current := p\<rparr>) \<and>
                node_at r p = Some n \<and> names_on r p = path \<and>
                (path \<noteq> [] \<longrightarrow> up (b\<lparr>current := p\<rparr>) = navigate_to (butlast path) b)"
    by blast
  then show ?thesis by blast
next
  case (Inl e)
  obtain key t where e: "e = (key, t)" by (cases e)
  from walk_Inl [of r "[]" path key t] Inl e obtain pre rest q m where
    *: "path = pre @ key # rest" "t = pre" "walk r [] pre = Inr q" "node_at r q = Some m"
       "key \<notin> name ` set (children m)"
    by auto
  have "path = t @ key # rest \<and>
        navigate_to path b = Raised (PathNotFoundError key t) b \<and>
        navigate_to t b = Returned (b\<lparr>current := q\<rparr>) \<and>
        node_at r q = Some m \<and> key \<notin> name ` set (children m)"
    using * Inl e assms by (simp add: navigate_to_def)
  then show ?thesis by blast
qed

theorem navigate_to_follows_path_witness:
  "navigate_to [''a'', ''b''] ab_builder = Returned (ab_builder\<lparr>current := [0, 0]\<rparr>) \<and>
   up (ab_builder\<lparr>current := [0, 0]\<rparr>) = Returned (ab_builder\<lparr>current := [0]\<rparr>) \<and>
   navigate_to [''a''] ab_builder = Returned (ab_builder\<lparr>current := [0]\<rparr>) \<and>
   navigate_to [''a'', ''missing''] ab_builder =
     Raised (PathNotFoundError ''missing'' [''a'']) ab_builder"
  using navigate_to_follows_path [of ab_builder "YAMLNode ''root'' Absent [YAMLNode ''a'' Absent [YAMLNode ''b'' Absent []]]" "[''a'', ''b'']"]
  by (simp add: ab_builder_def add_child_def FluentYAMLBuilder_init_def yaml_node_add_child_def
      navigate_to_def find_child_def up_def)

subsection \<open>Navigation by name\<close>

lemma find_append_option:
  "find P (xs @ ys) = (case find P xs of Some x \<Rightarrow> Some x | None \<Rightarrow> find P ys)"
  by (induction xs) simp_all

lemma find_map_option: "find P (map f xs) = map_option f (find (\<lambda>x. P (f x)) xs)"
  by (induction xs) simp_all

lemma search_is_first_in_preorder:
  "recursive_search n nm = find (\<lambda>p. name_at n p = Some nm) (preorder n)"
  "\<forall>parent pre. children parent = pre @ cs \<and> length pre = i \<longrightarrow>
     search_children cs i nm = find (\<lambda>p. name_at parent p = Some nm) (preorder_children i cs)"
proof (induction n nm and cs i nm rule: recursive_search_search_children.induct)
  case (1 nm' v cs name_rc)
  have "search_children cs 0 name_rc =
          find (\<lambda>p. name_at (YAMLNode nm' v cs) p = Some name_rc) (preorder_children 0 cs)"
    if "nm' \<noteq> name_rc"
    using 1 that by simp
  then show ?case by (simp add: name_at_def)
next
  case (2 i name_rc)
  show ?case by simp
next
  case (3 child cs i name_rc)
  show ?case
  proof (intro allI impI)
    fix parent pre
    assume a: "children parent = pre @ child # cs \<and> length pre = i"
    then have "i < length (children parent)" "children parent ! i = child"
      by (auto simp: nth_append)
    then have hit: "name_at parent (i # q) = name_at child q" for q
      by (simp add: name_at_def)
    have here: "find (\<lambda>p. name_at parent p = Some name_rc) (map ((#) i) (preorder child)) =
        map_option ((#) i) (recursive_search child name_rc)"
      by (simp add: find_map_option hit "3.IH"(1))
    show "search_children (child # cs) i name_rc =
        find (\<lambda>p. name_at parent p = Some name_rc) (preorder_children i (child # cs))"
    proof (cases "recursive_search child name_rc")
      case (Some p)
      then show ?thesis
        by (simp add: find_append_option here)
    next
      case None
      from a have "children parent = (pre @ [child]) @ cs \<and> length (pre @ [child]) = Suc i"
        by simp
      with "3.IH"(2) [OF None] have "search_children cs (Suc i) name_rc =
          find (\<lambda>p. name_at parent p = Some name_rc) (preorder_children (Suc i) cs)"
        by blast
      with None show ?thesis
        by (simp add: find_append_option here)
    qed
  qed
qed

lemma preorder_lists_the_nodes:
  "set (preorder n) = {p. node_at n p \<noteq> None}"
  "set (preorder_children i cs) = {(i + j) # q | j q. j < length cs \<and> node_at (cs ! j) q \<noteq> None}"
proof (induction n and i cs rule: preorder_preorder_children.induct)
  case (1 nm v cs)
  show ?case
  proof (rule set_eqI)
    fix p
    show "p \<in> set (preorder (YAMLNode nm v cs)) \<longleftrightarrow> p \<in> {p. node_at (YAMLNode nm v cs) p \<noteq> None}"
      using 1 by (cases p) auto
  qed
next
  case (2 i)
  show ?case by simp
next
  case (3 i c cs)
  show ?case
  proof (rule set_eqI)
    fix p
    show "p \<in> set (preorder_children i (c # cs)) \<longleftrightarrow>
          p \<in> {(i + j) # q | j q. j < length (c # cs) \<and> node_at ((c # cs) ! j) q \<noteq> None}"
    proof
      assume "p \<in> set (preorder_children i (c # cs))"
      then consider q where "p = i # q" "node_at c q \<noteq> None"
        | j q where "p = (Suc i + j) # q" "j < length cs" "node_at (cs ! j) q \<noteq> None"
        using 3 by auto
      then show "p \<in> {(i + j) # q | j q. j < length (c # cs) \<and> node_at ((c # cs) ! j) q \<noteq> None}"
      proof cases
        case 1
        then have "p = (i + 0) # q \<and> 0 < length (c # cs) \<and> node_at ((c # cs) ! 0) q \<noteq> None"
          by simp
        then show ?thesis by blast
      next
        case 2
        then have "p = (i + Suc j) # q \<and> Suc j < length (c # cs) \<and> node_at ((c # cs) ! Suc j) q \<noteq> None"
          by simp
        then show ?thesis by blast
      qed
    next
      assume "p \<in> {(i + j) # q | j q. j < length (c # cs) \<and> node_at ((c # cs) ! j) q \<noteq> None}"
      then obtain j q where jq: "p = (i + j) # q" "j < length (c # cs)" "node_at ((c # cs) ! j) q \<noteq> None"
        by blast
      show "p \<in> set (preorder_children i (c # cs))"
      proof (cases j)
        case 0
        with jq 3 show ?thesis by auto
      next
        case (Suc j')
        with jq have "p = (Suc i + j') # q \<and> j' < length cs \<and> node_at (cs ! j') q \<noteq> None"
          by simp
        with 3 show ?thesis by auto
      qed
    qed
  qed
qed

text \<open>
  Claim C9. On a builder with a tree, \<open>navigate_to_recursively name\<close> moves the cursor
  to the first path of the pre-order traversal whose node has that name, and raises
  \<open>NodeNotFoundError\<close>, leaving the builder as it was, when the traversal has none;
  the traversal lists exactly the nodes of the tree, so it raises exactly when no node
  of the tree has the name.
\<close>

theorem navigate_to_recursively_preorder:
  assumes "root b = Some r"
  shows "navigate_to_recursively nm b =
           (case find (\<lambda>p. name_at r p = Some nm) (preorder r) of
              Some p \<Rightarrow> Returned (b\<lparr>current := p\<rparr>)
            | None \<Rightarrow> Raised (NodeNotFoundError nm) b) \<and>
         set (preorder r) = {p. node_at r p \<noteq> None} \<and>
         ((\<exists>e. navigate_to_recursively nm b = Raised e b) \<longleftrightarrow>
            (\<forall>p n. node_at r p = Some n \<longrightarrow> name n \<noteq> nm))"
proof -
  have 1: "navigate_to_recursively nm b =
           (case find (\<lambda>p. name_at r p = Some nm) (preorder r) of
              Some p \<Rightarrow> Returned (b\<lparr>current := p\<rparr>)
            | None \<Rightarrow> Raised (NodeNotFoundError nm) b)"
    using assms
    by (simp add: navigate_to_recursively_def search_is_first_in_preorder(1) split: option.splits)
  have 2: "set (preorder r) = {p. node_at r p \<noteq> None}"
    by (rule preorder_lists_the_nodes(1))
  have "(find (\<lambda>p. name_at r p = Some nm) (preorder r) = None) \<longleftrightarrow>
        (\<forall>p n. node_at r p = Some n \<longrightarrow> name n \<noteq> nm)"
    unfolding find_None_iff 2 by (fastforce simp: name_at_def)
  then have 3: "(\<exists>e. navigate_to_recursively nm b = Raised e b) \<longleftrightarrow>
            (\<forall>p n. node_at r p = Some n \<longrightarrow> name n \<noteq> nm)"
    unfolding 1 by (auto split: option.splits)
  from 1 2 3 show ?thesis by blast
qed


theorem navigate_to_recursively_preorder_witness:
  "navigate_to_recursively ''t'' search_example = Returned (search_example\<lparr>current := [0, 1]\<rparr>) \<and>
   navigate_to_recursively ''a'' search_example = Returned (search_example\<lparr>current := [0]\<rparr>) \<and>
   navigate_to_recursively ''z'' search_example = Raised (NodeNotFoundError ''z'') search_example"
  using navigate_to_recursively_preorder
    [of search_example "YAMLNode ''root'' Absent
        [YAMLNode ''a'' Absent [YAMLNode ''a'' Absent [], YAMLNode ''t'' (Scalar (SInt 1)) []],
         YAMLNode ''t'' (Scalar (SInt 2)) []]" "''t''"]
  by (simp add: search_example_def navigate_to_recursively_def)

subsection \<open>The cursor stays in the tree\<close>

lemma cursor_ok_add_child: "cursor_ok b \<Longrightarrow> cursor_ok (add_child nm v stay b)"
proof (cases "root b")
  case None
  then show ?thesis by (simp add: cursor_ok_def add_child_def)
next
  case (Some r)
  assume "cursor_ok b"
  with Some obtain cur where cur: "node_at r (current b) = Some cur"
    by (auto simp: cursor_ok_def)
  have "node_at (update_at (yaml_node_add_child nm v) (current b) r) (current b) =
          Some (yaml_node_add_child nm v cur)"
    using cur by (rule node_at_update_at)
  then show ?thesis
    using Some cur
    by (simp add: cursor_ok_def add_child_def node_at_append yaml_node_add_child_def nth_append)
qed

lemma node_at_butlast: "node_at r p \<noteq> None \<Longrightarrow> node_at r (butlast p) \<noteq> None"
  by (induction p arbitrary: r) (auto split: if_splits)

lemma cursor_ok_up: "cursor_ok b \<Longrightarrow> up b = Returned b' \<Longrightarrow> cursor_ok b'"
  using node_at_butlast [of _ "current b"]
  by (fastforce simp: cursor_ok_def up_def split: option.splits if_splits)


lemma cursor_ok_navigate_to:
  "navigate_to path b = Returned b' \<Longrightarrow> cursor_ok b \<Longrightarrow> cursor_ok b'"
  using walk_Inr [of _ "[]" path]
  by (fastforce simp: navigate_to_def cursor_ok_def split: option.splits sum.splits if_splits)

section \<open>Properties of the netplan repository\<close>

lemma add_child_at:
  assumes "root b = Some r" and "node_at r (current b) = Some cur"
  shows "add_child nm v stay b =
           \<lparr>root = Some (update_at (yaml_node_add_child nm v) (current b) r),
            current = (if \<not> stay then current b @ [length (children cur)] else current b)\<rparr>"
  using assms by (simp add: add_child_def)

lemma create_builder:
  "snd (create data PortNetplanRepositoryYaml_init) = \<lparr>root = Some (netplan_tree data), current = [2, 0, 3]\<rparr>"
  unfolding create_def PortNetplanRepositoryYaml_init_def FluentYAMLBuilder_init_def Let_def
  apply (simp add: add_child_at yaml_node_add_child_def netplan_tree_def)
  done


lemma merge_entry_new: "map_of result key = None \<Longrightarrow> merge_entry result (key, v) = result @ [(key, v)]"
  by (induction result) (auto simp: merge_entry_def)

lemma to_dict_netplan_tree:
  "to_dict (netplan_tree data) =
     (''network'',
          DMap
           [(''version'', DScalar (SInt 2)),
            (''renderer'', DScalar (SStr ''networkd'')),
            (''ethernets'',
             DMap
              [(''ens3'',
                DMap
                 [(''dhcp4'', DScalar (SStr ''no'')),
                  (''addresses'', DList [DScalar (SStr (ip_address data @ ''/24''))]),
                  (''routes'',
                   DList
                    [DMap
                      [(''to'', DScalar (SStr ''0.0.0.0/0'')),
                       (''via'', DScalar (SStr (gateway data)))]]),
                  (''nameservers'',
                   DMap
                    [(''addresses'',
                      DList
                       [DScalar (SStr ''8.8.8.8''),
                        DScalar (SStr ''8.8.4.4'')])])])])])"
  by (simp add: netplan_tree_def merge_entry_new)

text \<open>
  Claim C3. For every \<open>Network\<close> value, \<open>create\<close> on a newly constructed repository
  returns the map with the single top-level key \<open>network\<close>, holding the scalars
  \<open>version\<close> and \<open>renderer\<close> and the map \<open>ethernets\<close>, keyed by the interface name
  \<open>ens3\<close>, which holds the scalar \<open>dhcp4\<close>, the list \<open>addresses\<close>, the list
  \<open>routes\<close> of one map with the keys \<open>to\<close> and \<open>via\<close>, and the map \<open>nameservers\<close>
  with its list \<open>addresses\<close>.
\<close>

theorem create_netplan_map:
  "fst (create data PortNetplanRepositoryYaml_init) =
     Inr (DMap
        [(''network'',
          DMap
           [(''version'', DScalar (SInt 2)),
            (''renderer'', DScalar (SStr ''networkd'')),
            (''ethernets'',
             DMap
              [(''ens3'',
                DMap
                 [(''dhcp4'', DScalar (SStr ''no'')),
                  (''addresses'', DList [DScalar (SStr (ip_address data @ ''/24''))]),
                  (''routes'',
                   DList
                    [DMap
                      [(''to'', DScalar (SStr ''0.0.0.0/0'')),
                       (''via'', DScalar (SStr (gateway data)))]]),
                  (''nameservers'',
                   DMap
                    [(''addresses'',
                      DList
                       [DScalar (SStr ''8.8.8.8''),
                        DScalar (SStr ''8.8.4.4'')])])])])])])"
proof -
  have "fst (create data PortNetplanRepositoryYaml_init) =
          build (snd (create data PortNetplanRepositoryYaml_init))"
    by (simp add: create_def Let_def)
  also have "\<dots> = Inr (DMap [to_dict (netplan_tree data)])"
    by (simp only: create_builder) (simp add: build_def)
  finally show ?thesis
    by (simp only: to_dict_netplan_tree)
qed

section \<open>Properties of the manager strategy\<close>

lemma py_format_literal:
  "CHR ''{'' \<notin> set s \<Longrightarrow> CHR ''}'' \<notin> set s \<Longrightarrow> py_format vm rest = Some (Inr out) \<Longrightarrow>
     py_format vm (s @ rest) = Some (Inr (s @ out))"
  by (induction s) (auto simp: emit_def)

lemma py_format_placeholder:
  "py_format vm rest = Some (Inr out) \<Longrightarrow>
     py_format vm (''{vm_instance}'' @ rest) = Some (Inr (vm @ out))"
  by (simp add: field_stop_def emit_def)

lemma py_format_template:
  "no_braces ps \<Longrightarrow> py_format vm (template_text ps) = Some (Inr (fill vm ps))"
proof (induction ps)
  case Nil
  show ?case by simp
next
  case (Cons p ps)
  show ?case
  proof (cases p)
    case (Lit s)
    with Cons show ?thesis
      by (simp add: py_format_literal del: py_format.simps)
  next
    case Placeholder
    with Cons show ?thesis
      using py_format_placeholder [of vm "template_text ps" "fill vm ps"]
      by (simp del: py_format.simps)
  qed
qed

text \<open>
  Claim C4, as amended. When the directory holds exactly one instance \<open>n\<close> of the
  strategy's role, and the template's description and command consist of brace-free text
  and \<open>{vm_instance}\<close> placeholders, and the runner kind resolves to a runner \<open>r\<close>, then
  \<open>categorize\<close> returns with the plan changed at \<open>plan[n][index]\<close> only, which now
  holds the command for \<open>n\<close> with \<open>n\<close> in place of every placeholder of the
  description and of the command, and the runner \<open>r\<close>. When the directory holds no
  instance of the role, or two or more, \<open>categorize\<close> returns with the plan unchanged,
  for every template.
\<close>

theorem manager_categorize:
  "(find_vm_instances_by_type (vm_repository self) (vm_type self) = [n] \<longrightarrow>
      (\<forall>ps_d ps_c kind r.
         description cmd = template_text ps_d \<and> no_braces ps_d \<and>
         command cmd = template_text ps_c \<and> no_braces ps_c \<and>
         get_enum_from_value (runner cmd) = Inr kind \<and> get_runner self kind = Inr r \<longrightarrow>
         categorize get_enum_from_value self cmd executable_commands =
           Some (Returned (executable_commands(n \<mapsto>
             (case executable_commands n of None \<Rightarrow> Map.empty | Some row \<Rightarrow> row)
               (index cmd \<mapsto> ExecutableCommandEntity n (fill n ps_d) (fill n ps_c) r)))))) \<and>
   (length (find_vm_instances_by_type (vm_repository self) (vm_type self)) \<noteq> 1 \<longrightarrow>
      categorize get_enum_from_value self cmd executable_commands = Some (Returned executable_commands))"
  by (auto simp: categorize_def setdefault_def py_format_template Let_def
      simp del: py_format.simps split: option.splits)

theorem manager_categorize_witness:
  "categorize (\<lambda>s. Inr s) one_manager echo_template Map.empty =
     Some (Returned [''mgr-1'' \<mapsto> [3 \<mapsto> ExecutableCommandEntity ''mgr-1'' ''greet mgr-1'' ''echo mgr-1'' ''multipass'']]) \<and>
   categorize (\<lambda>s. Inr s) (one_manager\<lparr>vm_repository := []\<rparr>) echo_template Map.empty =
     Some (Returned Map.empty) \<and>
   categorize (\<lambda>s. Inr s) (one_manager\<lparr>vm_repository := vm_repository one_manager @ vm_repository one_manager\<rparr>)
      echo_template Map.empty = Some (Returned Map.empty)"
proof -
  have names: "find_vm_instances_by_type (vm_repository one_manager) (vm_type one_manager) = [''mgr-1'']"
    by (simp add: one_manager_def find_vm_instances_by_type_def)
  have h: "description echo_template = template_text [Lit ''greet '', Placeholder] \<and>
           no_braces [Lit ''greet '', Placeholder] \<and>
           command echo_template = template_text [Lit ''echo '', Placeholder] \<and>
           no_braces [Lit ''echo '', Placeholder] \<and>
           (\<lambda>s. Inr s) (runner echo_template) = Inr ''multipass'' \<and>
           get_runner one_manager ''multipass'' = Inr ''multipass''"
    by (simp add: echo_template_def one_manager_def)
  have one: "categorize (\<lambda>s. Inr s) one_manager echo_template Map.empty =
      Some (Returned [''mgr-1'' \<mapsto> [3 \<mapsto> ExecutableCommandEntity ''mgr-1'' ''greet mgr-1'' ''echo mgr-1'' ''multipass'']])"
    using manager_categorize [of one_manager "''mgr-1''" echo_template "\<lambda>s. Inr s" Map.empty,
        THEN conjunct1, rule_format, OF names h]
    by (simp add: echo_template_def)
  have zero: "categorize (\<lambda>s. Inr s) (one_manager\<lparr>vm_repository := []\<rparr>) echo_template Map.empty =
      Some (Returned Map.empty)"
    using manager_categorize [of "one_manager\<lparr>vm_repository := []\<rparr>" "''mgr-1''" echo_template "\<lambda>s. Inr s" Map.empty]
    by (simp add: find_vm_instances_by_type_def)
  have two: "categorize (\<lambda>s. Inr s)
      (one_manager\<lparr>vm_repository := vm_repository one_manager @ vm_repository one_manager\<rparr>)
      echo_template Map.empty = Some (Returned Map.empty)"
    using manager_categorize [of "one_manager\<lparr>vm_repository := vm_repository one_manager @ vm_repository one_manager\<rparr>"
        "''mgr-1''" echo_template "\<lambda>s. Inr s" Map.empty]
    by (simp add: find_vm_instances_by_type_def one_manager_def)
  from one zero two show ?thesis by simp
qed

text \<open>
  Claim C4 as stated, for every command template, fails where \<open>str.format\<close> rejects the
  template. With the one manager \<open>mgr-1\<close> and the command
  \<open>echo ${HOME} {vm_instance}\<close>, the field \<open>{HOME}\<close> raises \<open>KeyError\<close>: nothing is
  inserted at \<open>plan[mgr-1][3]\<close>, and the plan, empty before the call, holds the empty
  row that \<open>setdefault\<close> has added for \<open>mgr-1\<close>.
\<close>

theorem manager_categorize_braces_counterexample:
  "categorize (\<lambda>s. Inr s) one_manager
      (echo_template\<lparr>command := ''echo ${HOME} {vm_instance}''\<rparr>) Map.empty =
     Some (Raised (KeyError ''HOME'') [''mgr-1'' \<mapsto> Map.empty])"
  by (simp add: categorize_def one_manager_def echo_template_def find_vm_instances_by_type_def
      setdefault_def field_stop_def emit_def is_digit_def)

text \<open>
  The model follows \<open>str.format\<close> on the doubled braces, which the amended claim leaves
  out as well: they come out as single braces.
\<close>

lemma py_format_doubled_braces:
  "py_format ''mgr-1'' ''x {{.H}} {vm_instance}'' = Some (Inr ''x {.H} mgr-1'')"
  by (simp add: field_stop_def emit_def)

lemma py_format_examples:
  "py_format ''mgr-1'' ''{'' = Some (Inl FormatValueError)"
  "py_format ''mgr-1'' ''{a{b}'' = Some (Inl FormatValueError)"
  "py_format ''mgr-1'' ''a } b'' = Some (Inl FormatValueError)"
  "py_format ''mgr-1'' ''{}'' = Some (Inl IndexError)"
  "py_format ''mgr-1'' ''{vm_instance:>8}'' = None"
  "py_format ''mgr-1'' ''{vm_instance!r}'' = None"
  "py_format ''mgr-1'' ''{0}'' = None"
  by (simp_all add: field_stop_def emit_def is_digit_def)

section \<open>Properties of the command runner\<close>

lemma map_of_fst_in:
  "vm \<in> set (map fst command_list) \<Longrightarrow> map_of command_list vm \<noteq> None"
  by (induction command_list) auto

text \<open>
  Claim C10. Whatever the instances' command sequences return or raise, \<open>run\<close> sends
  one status update of its own, with task \<open>finished\<close>, step \<open>execution\<close>, result
  \<open>success\<close> and instance \<open>all\<close>, and returns the list of the values and exceptions.
\<close>

theorem run_terminal_update_is_success:
  "run execute command_list =
     Inr (map (\<lambda>vm. execute (the (map_of command_list vm))) (map fst command_list),
          [\<lparr>task = ''finished'', step = ''execution'', result_arg = ''success'', instance_arg = ''all''\<rparr>])"
  using map_of_fst_in [of _ command_list]
  by (auto simp: run_def Let_def)

text \<open>For example, when both of two instances fail, the update still says \<open>success\<close>.\<close>

lemma run_terminal_update_when_all_fail:
  "run (\<lambda>row. Inl ''boom'') [(''a'', r1), (''b'', r2)] =
     Inr ([Inl ''boom'', Inl ''boom''],
          [\<lparr>task = ''finished'', step = ''execution'', result_arg = ''success'', instance_arg = ''all''\<rparr>])"
  by (simp add: run_def)


end
